theory Spec2Isabelle
  imports Main "HOL-Library.Multiset"
begin

section \<open>Identifiers of the document store\<close>

text \<open>
  A document's \<open>_id\<close> is either an ObjectId (twelve bytes, here the number they encode)
  or a string. The two are different values for the store: a filter on \<open>_id\<close> with a
  string matches string identifiers only, which is why \<open>get_flow\<close>, \<open>update_flow\<close> and
  \<open>delete_flow\<close> of the source wrap the identifier they receive in \<open>ObjectId(id)\<close>.
\<close>

datatype bson_id = ObjectId nat | IdStr string

definition hexdigit :: "nat \<Rightarrow> char" where
  "hexdigit d = ''0123456789abcdef'' ! d"

fun hex_of :: "nat \<Rightarrow> nat \<Rightarrow> string" where
  "hex_of 0 n = []"
| "hex_of (Suc k) n = hex_of k (n div 16) @ [hexdigit (n mod 16)]"

text \<open>\<open>str(oid)\<close>: the 24 hexadecimal digits of an ObjectId.\<close>

definition str_of_oid :: "nat \<Rightarrow> string" where
  "str_of_oid n = hex_of 24 n"

definition is_hex :: "char \<Rightarrow> bool" where
  "is_hex c = (c \<in> set ''0123456789abcdefABCDEF'')"

text \<open>
  \<open>bytes.fromhex\<close> reads pairs of hexadecimal digits and skips ASCII whitespace before a
  pair and at the end.
\<close>

definition is_space :: "char \<Rightarrow> bool" where
  "is_space c = (c \<in> set [CHR '' '', CHR 0x09, CHR 0x0A, CHR 0x0B, CHR 0x0C, CHR 0x0D])"

fun fromhex_ok :: "string \<Rightarrow> bool" where
  "fromhex_ok [] = True"
| "fromhex_ok [c] = is_space c"
| "fromhex_ok (c # d # cs) =
     (if is_space c then fromhex_ok (d # cs) else is_hex c \<and> is_hex d \<and> fromhex_ok cs)"

text \<open>
  \<open>ObjectId.is_valid\<close> on a string: \<open>ObjectId(s)\<close> does not raise, that is, the string
  has 24 characters and \<open>bytes.fromhex\<close> reads it.
\<close>

definition is_valid :: "string \<Rightarrow> bool" where
  "is_valid s = (length s = 24 \<and> fromhex_ok s)"

definition hexval :: "char \<Rightarrow> nat" where
  "hexval c =
     (if c \<in> set ''0123456789'' then of_char c - 48
      else if c \<in> set ''abcdef'' then of_char c - 87
      else of_char c - 55)"

text \<open>The number that a string of hexadecimal digits encodes.\<close>

definition oid_of_str :: "string \<Rightarrow> nat" where
  "oid_of_str s = foldl (\<lambda>a c. 16 * a + hexval c) 0 s"

text \<open>
  \<open>ObjectId(s)\<close> for a valid string \<open>s\<close>: the twelve bytes that 24 digits encode. A
  valid string with whitespace in it encodes fewer than twelve bytes, and the ObjectId
  built from it equals no stored \<open>_id\<close>: that is \<open>None\<close> here.
\<close>

definition object_id :: "string \<Rightarrow> bson_id option" where
  "object_id s = (if list_all is_hex s then Some (ObjectId (oid_of_str s)) else None)"

datatype error =
    IndexError
  | ValidationError
  | AttributeError
  | TypeError
  | DuplicateKeyError
  | UpstreamFailure string
  | HTTPException nat

text \<open>
  \<open>PyObjectId\<close> (the inner function \<open>validate\<close>): an ObjectId becomes its string, a
  valid string is kept, any other string is refused. The value of a \<open>PyObjectId\<close> field
  is therefore always a string.
\<close>

definition validate :: "bson_id \<Rightarrow> error + string" where
  "validate v =
     (case v of
        ObjectId n \<Rightarrow> Inr (str_of_oid n)
      | IdStr s \<Rightarrow> if is_valid s then Inr s else Inl ValidationError)"

section \<open>Documents and models\<close>

text \<open>The model \<open>Contact\<close>, and a document of the collection \<open>contacts\<close>.\<close>

record contact_doc =
  doc_id :: bson_id
  name :: string
  phone_number :: string
  tags :: "string list"
  current_flow_node_id :: "string option"
  last_active :: nat

text \<open>
  \<open>ContactInDB\<close>: the validated model; \<open>oid_str\<close> is its field \<open>id\<close> (alias \<open>_id\<close>),
  the string that \<open>validate\<close> returned.
\<close>

record Contact = contact_doc +
  oid_str :: string

text \<open>
  A node and an edge of a flow graph are JSON objects read with \<open>.get\<close>: a key that is
  missing or null reads as \<open>None\<close>. A node is the empty object \<open>{}\<close>, or an object
  with at least one key, whose \<open>id\<close> and \<open>type\<close> are strings or null and whose \<open>data\<close>
  is absent, an object of strings, or a value without \<open>.get\<close>. Every key of the empty
  object reads as missing.
\<close>

datatype data_field = Absent | NotADict | Dict "(string \<times> string option) list"

datatype node =
    EmptyObject
  | Object (n_id: "string option") (n_type: "string option") (n_data: data_field)
where
  "n_id EmptyObject = None"
| "n_type EmptyObject = None"
| "n_data EmptyObject = Absent"

record edge =
  source :: "string option"
  target :: "string option"

text \<open>\<open>flow_data\<close>; a missing \<open>nodes\<close> or \<open>edges\<close> key reads as the empty list.\<close>

record graph =
  nodes :: "node list"
  edges :: "edge list"

text \<open>A document of \<open>flows\<close>; \<open>flow_data\<close> and \<open>is_active\<close> may have been set to null.\<close>

record flow_doc =
  flow_id :: bson_id
  flow_name :: "string option"
  flow_data :: "graph option"
  is_active :: "bool option"

text \<open>A document of \<open>message_logs\<close>, as \<open>MessageLog.model_dump(by_alias=True)\<close> gives it.\<close>

record log_doc =
  log_id :: "bson_id option"
  contact_id :: bson_id
  from_number :: string
  direction :: string
  text_of :: string
  timestamp :: nat

text \<open>
  The database with its three collections, the messages handed to the delivery channel,
  and the clock that \<open>utcnow\<close> reads.
\<close>

record world =
  contacts :: "contact_doc list"
  flows :: "flow_doc list"
  message_logs :: "log_doc list"
  sent :: "(string \<times> string) list"
  clock :: nat

text \<open>
  The two external services. The source holds mocked bodies for them; a call either
  returns or raises.
\<close>

record services =
  get_openai_response :: "string option \<Rightarrow> (string \<times> string) list \<Rightarrow> error + string"
  send_whatsapp_reply :: "string \<Rightarrow> string \<Rightarrow> error + unit"

section \<open>Collections\<close>

text \<open>\<open>update_one\<close> rewrites the first document that matches, \<open>update_many\<close> all of them.\<close>

fun update_one :: "('a \<Rightarrow> bool) \<Rightarrow> ('a \<Rightarrow> 'a) \<Rightarrow> 'a list \<Rightarrow> 'a list" where
  "update_one P f [] = []"
| "update_one P f (d # ds) = (if P d then f d # ds else d # update_one P f ds)"

text \<open>
  \<open>insert_one\<close> appends the document; the \<open>_id\<close> index of a collection is unique, so
  a document whose \<open>_id\<close> is already stored is refused.
\<close>

definition insert_one :: "('a \<Rightarrow> 'k) \<Rightarrow> 'a \<Rightarrow> 'a list \<Rightarrow> error + 'a list" where
  "insert_one key d ds =
     (if key d \<in> set (map key ds) then Inl DuplicateKeyError else Inr (ds @ [d]))"

definition update_many :: "('a \<Rightarrow> bool) \<Rightarrow> ('a \<Rightarrow> 'a) \<Rightarrow> 'a list \<Rightarrow> 'a list" where
  "update_many P f ds = map (\<lambda>d. if P d then f d else d) ds"

text \<open>Truthiness of an optional string: null and the empty string are false.\<close>

definition truthy :: "string option \<Rightarrow> bool" where
  "truthy v = (case v of None \<Rightarrow> False | Some s \<Rightarrow> s \<noteq> [])"

definition dict_get :: "(string \<times> 'v) list \<Rightarrow> string \<Rightarrow> 'v \<Rightarrow> 'v" where
  "dict_get d k dflt = (case map_of d k of None \<Rightarrow> dflt | Some v \<Rightarrow> v)"

section \<open>Utility functions\<close>

text \<open>
  \<open>log_message\<close>: builds a \<open>MessageLog\<close> (its \<open>contact_id\<close> is a \<open>PyObjectId\<close>, its
  \<open>id\<close> is left at the default \<open>None\<close>) and inserts the dump, which carries
  \<open>_id = None\<close> under the field's alias.
\<close>

definition log_message :: "world \<Rightarrow> bson_id \<Rightarrow> string \<Rightarrow> string \<Rightarrow> string \<Rightarrow> (error + unit) \<times> world" where
  "log_message db cid from_num dir txt =
     (case validate cid of
        Inl e \<Rightarrow> (Inl e, db)
      | Inr s \<Rightarrow>
          let log = \<lparr>log_id = None, contact_id = IdStr s, from_number = from_num,
                     direction = dir, text_of = txt, timestamp = clock db\<rparr>
          in case insert_one log_id log (message_logs db) of
               Inl e \<Rightarrow> (Inl e, db)
             | Inr ls \<Rightarrow> (Inr (), db\<lparr>message_logs := ls\<rparr>))"

text \<open>
  The cursor of \<open>get_chat_history\<close>: \<open>find\<close> by \<open>contact_id\<close>, \<open>sort\<close> by timestamp
  descending, \<open>limit\<close>. The sort is an insertion sort that keeps the stored order of
  equal timestamps. A limit of 0 is no limit for the driver, and a negative limit is
  its absolute value.
\<close>

fun insert_desc :: "log_doc \<Rightarrow> log_doc list \<Rightarrow> log_doc list" where
  "insert_desc x [] = [x]"
| "insert_desc x (y # ys) =
     (if timestamp y < timestamp x then x # y # ys else y # insert_desc x ys)"

definition sort_desc :: "log_doc list \<Rightarrow> log_doc list" where
  "sort_desc ls = foldr insert_desc ls []"

definition limit_cursor :: "int \<Rightarrow> 'a list \<Rightarrow> 'a list" where
  "limit_cursor n xs = (if n = 0 then xs else take (nat \<bar>n\<bar>) xs)"

definition role_content :: "log_doc \<Rightarrow> string \<times> string" where
  "role_content log =
     (if direction log = ''inbound'' then ''user'' else ''assistant'', text_of log)"

definition get_chat_history :: "world \<Rightarrow> bson_id \<Rightarrow> int \<Rightarrow> (string \<times> string) list" where
  "get_chat_history db cid lim =
     (let cursor = limit_cursor lim
                     (sort_desc (filter (\<lambda>l. contact_id l = cid) (message_logs db)));
          history = foldl (\<lambda>h log. h @ [role_content log]) [] cursor
      in rev history)"

section \<open>Executing a node\<close>

text \<open>The loop over the edges: the target of the first edge that leaves the node.\<close>

fun next_node_id_of :: "edge list \<Rightarrow> string option \<Rightarrow> string option" where
  "next_node_id_of [] nid = None"
| "next_node_id_of (e # es) nid =
     (if source e = nid then target e else next_node_id_of es nid)"

text \<open>\<open>node.get('data', {}).get(key, default)\<close>.\<close>

definition data_get :: "data_field \<Rightarrow> string \<Rightarrow> string option \<Rightarrow> error + string option" where
  "data_get dat k dflt =
     (case dat of
        Absent \<Rightarrow> Inr dflt
      | NotADict \<Rightarrow> Inl AttributeError
      | Dict d \<Rightarrow> Inr (dict_get d k dflt))"

text \<open>The two branches on the node's type, giving \<open>reply_text\<close>.\<close>

definition reply_text_of :: "services \<Rightarrow> world \<Rightarrow> Contact \<Rightarrow> node \<Rightarrow> error + string option" where
  "reply_text_of sv db contact nd =
     (if n_type nd = Some ''textMessage'' then data_get (n_data nd) ''message'' None
      else if n_type nd = Some ''aiResponse'' then
        (let history = get_chat_history db (IdStr (oid_str contact)) 10 in
         case data_get (n_data nd) ''prompt'' (Some []) of
           Inl e \<Rightarrow> Inl e
         | Inr prompt \<Rightarrow>
             (case get_openai_response sv prompt history of
                Inl e \<Rightarrow> Inl e
              | Inr s \<Rightarrow> Inr (Some s)))
      else Inr None)"

text \<open>
  \<open>execute_flow_node\<close>. An exception leaves the function at once, with the effects made
  so far. The filter of the final \<open>update_one\<close> is \<open>{"_id": contact.id}\<close>, and
  \<open>contact.id\<close> is a string.
\<close>

definition execute_flow_node :: "services \<Rightarrow> world \<Rightarrow> Contact \<Rightarrow> node \<Rightarrow> graph \<Rightarrow> (error + unit) \<times> world" where
  "execute_flow_node sv db contact nd fd =
     (case reply_text_of sv db contact nd of
        Inl e \<Rightarrow> (Inl e, db)
      | Inr reply_text \<Rightarrow>
          (case (if truthy reply_text then
                   (case send_whatsapp_reply sv (phone_number contact) (the reply_text) of
                      Inl e \<Rightarrow> (Inl e, db)
                    | Inr _ \<Rightarrow>
                        log_message
                          (db\<lparr>sent := sent db @ [(phone_number contact, the reply_text)]\<rparr>)
                          (IdStr (oid_str contact)) (phone_number contact)
                          ''outbound'' (the reply_text))
                 else (Inr (), db)) of
             (Inl e, db1) \<Rightarrow> (Inl e, db1)
           | (Inr _, db1) \<Rightarrow>
               let next_node_id = next_node_id_of (edges fd) (n_id nd)
               in (Inr (),
                   db1\<lparr>contacts :=
                     update_one (\<lambda>c. doc_id c = IdStr (oid_str contact))
                       (\<lambda>c. c\<lparr>current_flow_node_id := next_node_id,
                                last_active := clock db1\<rparr>)
                       (contacts db1)\<rparr>)))"

section \<open>The webhook\<close>

record WebhookMessage =
  sender :: string
  body :: string

record WebhookPayload =
  messages :: "WebhookMessage list"

datatype response = NoActiveFlow | NoTriggerNode | MessageProcessed

definition is_digit :: "char \<Rightarrow> bool" where
  "is_digit c = (c \<in> set ''0123456789'')"

text \<open>The pattern of \<open>Contact.phone_number\<close>: an optional +, a digit 1-9, one to 14 digits.\<close>

definition phone_ok :: "string \<Rightarrow> bool" where
  "phone_ok s =
     (let r = (case s of [] \<Rightarrow> s | c # t \<Rightarrow> if c = CHR ''+'' then t else s)
      in case r of
           [] \<Rightarrow> False
         | d # ds \<Rightarrow> d \<in> set ''123456789'' \<and> 1 \<le> length ds \<and> length ds \<le> 14
                     \<and> list_all is_digit ds)"

text \<open>\<open>ContactInDB(**contact)\<close>: the validation of a stored contact document.\<close>

definition ContactInDB :: "contact_doc \<Rightarrow> error + Contact" where
  "ContactInDB d =
     (case validate (doc_id d) of
        Inl e \<Rightarrow> Inl e
      | Inr s \<Rightarrow>
          if name d = [] \<or> \<not> phone_ok (phone_number d) then Inl ValidationError
          else Inr \<lparr>doc_id = doc_id d, name = name d, phone_number = phone_number d,
                    tags = tags d, current_flow_node_id = current_flow_node_id d,
                    last_active = last_active d, oid_str = s\<rparr>)"

text \<open>
  The contact of the sender: the stored one, or a new one inserted under the ObjectId
  \<open>new_oid\<close> that the driver generates, and read back.
\<close>

definition find_or_create_contact :: "nat \<Rightarrow> string \<Rightarrow> world \<Rightarrow> (error + contact_doc) \<times> world" where
  "find_or_create_contact new_oid from_num db =
     (case find (\<lambda>c. phone_number c = from_num) (contacts db) of
        Some c \<Rightarrow> (Inr c, db)
      | None \<Rightarrow>
          let new_contact_data =
                \<lparr>doc_id = ObjectId new_oid, name = ''WA '' @ from_num,
                 phone_number = from_num, tags = [''new_lead''],
                 current_flow_node_id = None, last_active = clock db\<rparr>
          in case insert_one doc_id new_contact_data (contacts db) of
               Inl e \<Rightarrow> (Inl e, db)
             | Inr cs \<Rightarrow>
                 (case find (\<lambda>c. doc_id c = ObjectId new_oid) cs of
                    None \<Rightarrow> (Inl TypeError, db\<lparr>contacts := cs\<rparr>)
                  | Some c \<Rightarrow> (Inr c, db\<lparr>contacts := cs\<rparr>)))"

text \<open>\<open>not x\<close> for \<open>x\<close> a node or \<open>None\<close>: only the empty object is a false node.\<close>

definition not_node :: "node option \<Rightarrow> bool" where
  "not_node x = (case x of None \<Rightarrow> True | Some n \<Rightarrow> n = EmptyObject)"

text \<open>
  The node to execute: the node at the contact's saved position when that position is
  truthy and found, else the first node that is no edge's target. \<open>None\<close> is the
  handler's answer that no trigger node was found.
\<close>

definition resolve_node :: "string option \<Rightarrow> graph \<Rightarrow> node option" where
  "resolve_node current_node_id fd =
     (let current_node =
            (if truthy current_node_id
             then find (\<lambda>n. n_id n = current_node_id) (nodes fd) else None)
      in if not_node current_node then
           (let target_nodes = set (map target (edges fd));
                trigger_node = find (\<lambda>n. n_id n \<notin> target_nodes) (nodes fd)
            in if not_node trigger_node then None else trigger_node)
         else current_node)"

text \<open>The handler from the lookup of the active flow on.\<close>

definition run_active_flow :: "services \<Rightarrow> world \<Rightarrow> Contact \<Rightarrow> (error + response) \<times> world" where
  "run_active_flow sv db contact =
     (case find (\<lambda>f. is_active f = Some True) (flows db) of
        None \<Rightarrow> (Inr NoActiveFlow, db)
      | Some active_flow \<Rightarrow>
          (case flow_data active_flow of
             None \<Rightarrow> (Inl AttributeError, db)
           | Some fd \<Rightarrow>
               (case resolve_node (current_flow_node_id contact) fd of
                  None \<Rightarrow> (Inr NoTriggerNode, db)
                | Some current_node \<Rightarrow>
                    (case execute_flow_node sv db contact current_node fd of
                       (Inl e, db') \<Rightarrow> (Inl e, db')
                     | (Inr _, db') \<Rightarrow> (Inr MessageProcessed, db')))))"

definition handle_whatsapp_webhook :: "services \<Rightarrow> nat \<Rightarrow> WebhookPayload \<Rightarrow> world \<Rightarrow> (error + response) \<times> world" where
  "handle_whatsapp_webhook sv new_oid payload db =
     (case messages payload of
        [] \<Rightarrow> (Inl IndexError, db)
      | message # _ \<Rightarrow>
          (case find_or_create_contact new_oid (sender message) db of
             (Inl e, db1) \<Rightarrow> (Inl e, db1)
           | (Inr d, db1) \<Rightarrow>
               (case ContactInDB d of
                  Inl e \<Rightarrow> (Inl e, db1)
                | Inr contact \<Rightarrow>
                    (case log_message db1 (IdStr (oid_str contact)) (sender message)
                            ''inbound'' (body message) of
                       (Inl e, db2) \<Rightarrow> (Inl e, db2)
                     | (Inr _, db2) \<Rightarrow> run_active_flow sv db2 contact))))"

section \<open>Flow endpoints\<close>

record ChatbotFlowCreate =
  new_name :: string
  new_flow_data :: graph
  new_is_active :: bool

text \<open>\<open>ChatbotFlowUpdate\<close> after \<open>model_dump(exclude_unset=True)\<close>: \<open>None\<close> is a field not sent.\<close>

record ChatbotFlowUpdate =
  upd_name :: "string option option"
  upd_flow_data :: "graph option option"
  upd_is_active :: "bool option option"

text \<open>\<open>ChatbotFlowInDB(**flow)\<close>: no field of the document may be null.\<close>

definition ChatbotFlowInDB :: "flow_doc \<Rightarrow> error + flow_doc" where
  "ChatbotFlowInDB f =
     (case validate (flow_id f) of
        Inl e \<Rightarrow> Inl e
      | Inr _ \<Rightarrow>
          if flow_name f = None \<or> flow_data f = None \<or> is_active f = None
          then Inl ValidationError else Inr f)"

definition deactivate :: "flow_doc \<Rightarrow> flow_doc" where
  "deactivate f = f\<lparr>is_active := Some False\<rparr>"

definition create_flow :: "nat \<Rightarrow> ChatbotFlowCreate \<Rightarrow> world \<Rightarrow> (error + flow_doc) \<times> world" where
  "create_flow new_oid flow db =
     (let flow_dict = \<lparr>flow_id = ObjectId new_oid, flow_name = Some (new_name flow),
                         flow_data = Some (new_flow_data flow),
                         is_active = Some (new_is_active flow)\<rparr>;
          db1 = (if new_is_active flow
                 then db\<lparr>flows := update_many (\<lambda>f. is_active f = Some True) deactivate (flows db)\<rparr>
                 else db)
      in case insert_one flow_id flow_dict (flows db1) of
           Inl e \<Rightarrow> (Inl e, db1)
         | Inr fs \<Rightarrow>
             (case find (\<lambda>f. flow_id f = ObjectId new_oid) fs of
                None \<Rightarrow> (Inl TypeError, db1\<lparr>flows := fs\<rparr>)
              | Some created_flow \<Rightarrow> (ChatbotFlowInDB created_flow, db1\<lparr>flows := fs\<rparr>)))"

text \<open>\<open>$set\<close> with the fields that were sent.\<close>

definition apply_set :: "ChatbotFlowUpdate \<Rightarrow> flow_doc \<Rightarrow> flow_doc" where
  "apply_set u f =
     f\<lparr>flow_name := (case upd_name u of None \<Rightarrow> flow_name f | Some v \<Rightarrow> v),
       flow_data := (case upd_flow_data u of None \<Rightarrow> flow_data f | Some v \<Rightarrow> v),
       is_active := (case upd_is_active u of None \<Rightarrow> is_active f | Some v \<Rightarrow> v)\<rparr>"

definition no_update_data :: "ChatbotFlowUpdate \<Rightarrow> bool" where
  "no_update_data u =
     (upd_name u = None \<and> upd_flow_data u = None \<and> upd_is_active u = None)"

definition update_flow :: "string \<Rightarrow> ChatbotFlowUpdate \<Rightarrow> world \<Rightarrow> (error + flow_doc) \<times> world" where
  "update_flow ident flow_update db =
     (if \<not> is_valid ident then (Inl (HTTPException 400), db)
      else if no_update_data flow_update then (Inl (HTTPException 400), db)
      else
        let oid = object_id ident;
            db1 = (if upd_is_active flow_update = Some (Some True)
                   then db\<lparr>flows :=
                          update_many (\<lambda>f. Some (flow_id f) \<noteq> oid \<and> is_active f = Some True)
                            deactivate (flows db)\<rparr>
                   else db);
            matched = find (\<lambda>f. Some (flow_id f) = oid) (flows db1);
            db2 = db1\<lparr>flows :=
                    update_one (\<lambda>f. Some (flow_id f) = oid) (apply_set flow_update) (flows db1)\<rparr>
        in if matched = None then (Inl (HTTPException 404), db2)
           else (case find (\<lambda>f. Some (flow_id f) = oid) (flows db2) of
                   None \<Rightarrow> (Inl TypeError, db2)
                 | Some updated_flow \<Rightarrow> (ChatbotFlowInDB updated_flow, db2)))"

section \<open>Services and sample data\<close>

text \<open>The mocked bodies of the source: both calls return.\<close>

definition mock_services :: services where
  "mock_services =
     \<lparr>get_openai_response =
        (\<lambda>prompt history.
           Inr (''This is a mocked AI response to your prompt: '' @ [CHR 0x27]
                @ (if truthy prompt then the prompt else ''...'') @ [CHR 0x27])),
      send_whatsapp_reply = (\<lambda>phone txt. Inr ())\<rparr>"

text \<open>Services that are down: both calls raise.\<close>

definition failing_services :: services where
  "failing_services =
     \<lparr>get_openai_response = (\<lambda>prompt history. Inl (UpstreamFailure ''openai'')),
      send_whatsapp_reply = (\<lambda>phone txt. Inl (UpstreamFailure ''whatsapp''))\<rparr>"

text \<open>A flow of two text nodes, \<open>n1\<close> leading to \<open>n2\<close>.\<close>

definition node_n1 :: node where
  "node_n1 = Object (Some ''n1'') (Some ''textMessage'') (Dict [(''message'', Some ''Hi!'')])"

definition node_n2 :: node where
  "node_n2 = Object (Some ''n2'') (Some ''textMessage'') (Dict [(''message'', Some ''Bye'')])"

definition two_step :: graph where
  "two_step = \<lparr>nodes = [node_n1, node_n2],
                edges = [\<lparr>source = Some ''n1'', target = Some ''n2''\<rparr>]\<rparr>"

text \<open>A flow whose entry is a node of a type the executor does not know.\<close>

definition node_start :: node where
  "node_start = Object (Some ''start'') (Some ''trigger'') Absent"

definition triggered :: graph where
  "triggered = \<lparr>nodes = [node_start, node_n2],
                 edges = [\<lparr>source = Some ''start'', target = Some ''n2''\<rparr>]\<rparr>"

text \<open>
  Two stored contacts at no position: one under the ObjectId that \<open>insert_one\<close> gave
  it, one under a string identifier.
\<close>

definition alice :: contact_doc where
  "alice = \<lparr>doc_id = ObjectId 1, name = ''WA +15551234567'',
             phone_number = ''+15551234567'', tags = [''new_lead''],
             current_flow_node_id = None, last_active = 0\<rparr>"

definition bob :: contact_doc where
  "bob = \<lparr>doc_id = IdStr ''0000000000000000000000b0'', name = ''Bob'',
           phone_number = ''+15557654321'', tags = [],
           current_flow_node_id = None, last_active = 0\<rparr>"

text \<open>The two contacts as \<open>ContactInDB\<close> validates them.\<close>

definition alice_in_db :: Contact where
  "alice_in_db = \<lparr>doc_id = ObjectId 1, name = ''WA +15551234567'',
                   phone_number = ''+15551234567'', tags = [''new_lead''],
                   current_flow_node_id = None, last_active = 0,
                   oid_str = ''000000000000000000000001''\<rparr>"

definition bob_in_db :: Contact where
  "bob_in_db = \<lparr>doc_id = IdStr ''0000000000000000000000b0'', name = ''Bob'',
                 phone_number = ''+15557654321'', tags = [],
                 current_flow_node_id = None, last_active = 0,
                 oid_str = ''0000000000000000000000b0''\<rparr>"

definition store :: "graph \<Rightarrow> world" where
  "store g =
     \<lparr>contacts = [alice, bob],
      flows = [\<lparr>flow_id = ObjectId 2, flow_name = Some ''main'', flow_data = Some g,
                is_active = Some True\<rparr>],
      message_logs = [], sent = [], clock = 5\<rparr>"

text \<open>A log of three entries of one contact and one entry of another.\<close>

definition history_store :: world where
  "history_store =
     \<lparr>contacts = [], flows = [],
      message_logs =
        [\<lparr>log_id = Some (ObjectId 11), contact_id = IdStr ''c1'', from_number = ''+15551234567'',
          direction = ''inbound'', text_of = ''one'', timestamp = 1\<rparr>,
         \<lparr>log_id = Some (ObjectId 12), contact_id = IdStr ''c2'', from_number = ''+15557654321'',
          direction = ''inbound'', text_of = ''other'', timestamp = 2\<rparr>,
         \<lparr>log_id = Some (ObjectId 13), contact_id = IdStr ''c1'', from_number = ''+15551234567'',
          direction = ''outbound'', text_of = ''two'', timestamp = 3\<rparr>,
         \<lparr>log_id = Some (ObjectId 14), contact_id = IdStr ''c1'', from_number = ''+15551234567'',
          direction = ''inbound'', text_of = ''three'', timestamp = 4\<rparr>],
      sent = [], clock = 5\<rparr>"

text \<open>A collection of two flows, the first of them active.\<close>

definition two_flows :: world where
  "two_flows =
     \<lparr>contacts = [],
      flows = [\<lparr>flow_id = ObjectId 2, flow_name = Some ''main'', flow_data = Some two_step,
                is_active = Some True\<rparr>,
               \<lparr>flow_id = ObjectId 3, flow_name = Some ''next'', flow_data = Some triggered,
                is_active = Some False\<rparr>],
      message_logs = [], sent = [], clock = 5\<rparr>"

text \<open>The two contacts with no flow stored, and a flow of one node of unknown type.\<close>

definition idle_store :: world where
  "idle_store =
     \<lparr>contacts = [alice, bob], flows = [], message_logs = [], sent = [], clock = 5\<rparr>"

definition lone_start :: graph where
  "lone_start = \<lparr>nodes = [node_start], edges = []\<rparr>"

text \<open>
  A flow whose trigger node has two outgoing edges, declared after an edge of another
  node.
\<close>

definition forked :: graph where
  "forked = \<lparr>nodes = [node_start, node_n1, node_n2],
              edges = [\<lparr>source = Some ''n1'', target = Some ''n2''\<rparr>,
                       \<lparr>source = Some ''start'', target = Some ''n1''\<rparr>,
                       \<lparr>source = Some ''start'', target = Some ''n2''\<rparr>]\<rparr>"

text \<open>
  A sequence of inbound events, handled one after the other; each comes with the
  ObjectId that the driver would give a new contact.
\<close>

fun handle_events :: "services \<Rightarrow> (nat \<times> WebhookPayload) list \<Rightarrow> world \<Rightarrow> world" where
  "handle_events sv [] db = db"
| "handle_events sv ((new_oid, payload) # evs) db =
     handle_events sv evs (snd (handle_whatsapp_webhook sv new_oid payload db))"

text \<open>
  The store in which the contact under the string identifier stands at \<open>start\<close>, the
  only node of the active flow.
\<close>

definition dead_end_store :: world where
  "dead_end_store =
     \<lparr>contacts = [alice, bob\<lparr>current_flow_node_id := Some ''start''\<rparr>],
      flows = [\<lparr>flow_id = ObjectId 2, flow_name = Some ''main'', flow_data = Some lone_start,
                is_active = Some True\<rparr>],
      message_logs = [], sent = [], clock = 5\<rparr>"

text \<open>The invariant of the collection of flows: at most one document is active.\<close>

definition at_most_one_active :: "flow_doc list \<Rightarrow> bool" where
  "at_most_one_active fs = (length (filter (\<lambda>f. is_active f = Some True) fs) \<le> 1)"

section \<open>Identifiers, validation and logging\<close>

lemma is_hex_hexdigit: "d < 16 \<Longrightarrow> is_hex (hexdigit d)"
proof -
  assume "d < 16"
  then have "d \<in> set [0..<16]" by simp
  moreover have "\<forall>d\<in>set [0..<16]. is_hex (hexdigit d)" by code_simp
  ultimately show ?thesis by blast
qed

lemma length_hex_of: "length (hex_of k n) = k"
  by (induction k arbitrary: n) auto

lemma hex_of_all_hex: "list_all is_hex (hex_of k n)"
  by (induction k arbitrary: n) (auto simp: is_hex_hexdigit)

lemma hex_not_space: "is_hex c \<Longrightarrow> \<not> is_space c"
  by (auto simp: is_hex_def is_space_def)

lemma fromhex_ok_hex: "list_all is_hex s \<Longrightarrow> even (length s) \<Longrightarrow> fromhex_ok s"
  by (induction s rule: fromhex_ok.induct) (auto simp: hex_not_space)

lemma is_valid_str_of_oid: "is_valid (str_of_oid n)"
  by (simp add: is_valid_def str_of_oid_def length_hex_of hex_of_all_hex fromhex_ok_hex)

lemma validate_valid: "validate v = Inr s \<Longrightarrow> is_valid s"
  by (cases v) (auto simp: validate_def is_valid_str_of_oid split: if_splits)

lemma validate_IdStr: "is_valid s \<Longrightarrow> validate (IdStr s) = Inr s"
  by (simp add: validate_def)

lemma ContactInDB_Inr:
  "ContactInDB d = Inr c \<Longrightarrow>
   validate (doc_id d) = Inr (oid_str c) \<and> phone_number c = phone_number d \<and>
   current_flow_node_id c = current_flow_node_id d"
  by (auto simp: ContactInDB_def split: sum.splits if_splits)

lemma ContactInDB_ok:
  "validate (doc_id d) = Inr s \<Longrightarrow> name d \<noteq> [] \<Longrightarrow> phone_ok (phone_number d) \<Longrightarrow>
   ContactInDB d =
     Inr \<lparr>doc_id = doc_id d, name = name d, phone_number = phone_number d,
          tags = tags d, current_flow_node_id = current_flow_node_id d,
          last_active = last_active d, oid_str = s\<rparr>"
  by (simp add: ContactInDB_def)

lemma log_message_ok:
  "is_valid s \<Longrightarrow> None \<notin> set (map log_id (message_logs db)) \<Longrightarrow>
   log_message db (IdStr s) f d t =
     (Inr (), db\<lparr>message_logs := message_logs db @
        [\<lparr>log_id = None, contact_id = IdStr s, from_number = f, direction = d,
          text_of = t, timestamp = clock db\<rparr>]\<rparr>)"
  by (simp add: log_message_def validate_IdStr insert_one_def)

lemma log_message_keeps:
  "contacts (snd (log_message db cid f d t)) = contacts db \<and>
   flows (snd (log_message db cid f d t)) = flows db \<and>
   sent (snd (log_message db cid f d t)) = sent db \<and>
   clock (snd (log_message db cid f d t)) = clock db"
  by (simp add: log_message_def Let_def split: sum.splits)

lemma execute_flow_node_raise_reply:
  "reply_text_of sv db contact nd = Inl e \<Longrightarrow>
   execute_flow_node sv db contact nd fd = (Inl e, db)"
  by (simp add: execute_flow_node_def)

lemma execute_flow_node_raise_send:
  "reply_text_of sv db contact nd = Inr (Some r) \<Longrightarrow> r \<noteq> [] \<Longrightarrow>
   send_whatsapp_reply sv (phone_number contact) r = Inl e \<Longrightarrow>
   execute_flow_node sv db contact nd fd = (Inl e, db)"
  by (simp add: execute_flow_node_def truthy_def)

lemma execute_flow_node_no_reply:
  "reply_text_of sv db contact nd = Inr r \<Longrightarrow> \<not> truthy r \<Longrightarrow>
   execute_flow_node sv db contact nd fd =
     (Inr (),
      db\<lparr>contacts :=
        update_one (\<lambda>c. doc_id c = IdStr (oid_str contact))
          (\<lambda>c. c\<lparr>current_flow_node_id := next_node_id_of (edges fd) (n_id nd),
                   last_active := clock db\<rparr>)
          (contacts db)\<rparr>)"
  by (simp add: execute_flow_node_def)

lemma execute_flow_node_effects:
  "flows (snd (execute_flow_node sv db contact nd fd)) = flows db \<and>
   (contacts (snd (execute_flow_node sv db contact nd fd)) = contacts db \<or>
    contacts (snd (execute_flow_node sv db contact nd fd)) =
      update_one (\<lambda>c. doc_id c = IdStr (oid_str contact))
        (\<lambda>c. c\<lparr>current_flow_node_id := next_node_id_of (edges fd) (n_id nd),
                 last_active := clock db\<rparr>)
        (contacts db))"
proof (cases "reply_text_of sv db contact nd")
  case (Inl e)
  then show ?thesis by (simp add: execute_flow_node_raise_reply)
next
  case (Inr r)
  show ?thesis
  proof (cases "truthy r")
    case False
    with Inr show ?thesis by (simp add: execute_flow_node_no_reply)
  next
    case True
    show ?thesis
    proof (cases "send_whatsapp_reply sv (phone_number contact) (the r)")
      case (Inl e)
      with Inr True show ?thesis by (simp add: execute_flow_node_def)
    next
      case sent: (Inr u)
      let ?db1 = "db\<lparr>sent := sent db @ [(phone_number contact, the r)]\<rparr>"
      let ?L = "log_message ?db1 (IdStr (oid_str contact)) (phone_number contact)
                  ''outbound'' (the r)"
      obtain res db2 where L: "?L = (res, db2)" by (cases ?L)
      have k: "contacts db2 = contacts db \<and> flows db2 = flows db \<and> clock db2 = clock db"
        using log_message_keeps [of ?db1 "IdStr (oid_str contact)" "phone_number contact"
            "''outbound''" "the r"] L by simp
      show ?thesis
      proof (cases res)
        case (Inl e)
        with Inr True sent L k show ?thesis by (simp add: execute_flow_node_def)
      next
        case (Inr u2)
        with \<open>reply_text_of sv db contact nd = Inr r\<close> True sent L k show ?thesis
          by (simp add: execute_flow_node_def)
      qed
    qed
  qed
qed

section \<open>The next node\<close>

lemma next_node_id_of_none:
  "(\<forall>e\<in>set es. source e \<noteq> nid) \<Longrightarrow> next_node_id_of es nid = None"
  by (induction es) auto

lemma next_node_id_of_first:
  "(\<forall>x\<in>set pre. source x \<noteq> nid) \<Longrightarrow> source e = nid \<Longrightarrow>
   next_node_id_of (pre @ e # post) nid = target e"
  by (induction pre) auto

lemma execute_flow_node_returns:
  assumes "fst (execute_flow_node sv db contact nd fd) = Inr ()"
  shows "contacts (snd (execute_flow_node sv db contact nd fd)) =
      update_one (\<lambda>c. doc_id c = IdStr (oid_str contact))
        (\<lambda>c. c\<lparr>current_flow_node_id := next_node_id_of (edges fd) (n_id nd),
                 last_active := clock db\<rparr>)
        (contacts db)"
proof (cases "reply_text_of sv db contact nd")
  case (Inl e)
  with assms show ?thesis by (simp add: execute_flow_node_raise_reply)
next
  case (Inr r)
  show ?thesis
  proof (cases "truthy r")
    case False
    with Inr show ?thesis by (simp add: execute_flow_node_no_reply)
  next
    case True
    show ?thesis
    proof (cases "send_whatsapp_reply sv (phone_number contact) (the r)")
      case (Inl e)
      with Inr True assms show ?thesis by (simp add: execute_flow_node_def)
    next
      case sent: (Inr u)
      let ?db1 = "db\<lparr>sent := sent db @ [(phone_number contact, the r)]\<rparr>"
      let ?L = "log_message ?db1 (IdStr (oid_str contact)) (phone_number contact)
                  ''outbound'' (the r)"
      obtain res db2 where L: "?L = (res, db2)" by (cases ?L)
      have k: "contacts db2 = contacts db \<and> clock db2 = clock db"
        using log_message_keeps [of ?db1 "IdStr (oid_str contact)" "phone_number contact"
            "''outbound''" "the r"] L by simp
      show ?thesis
      proof (cases res)
        case (Inl e)
        with Inr True sent L assms show ?thesis by (simp add: execute_flow_node_def)
      next
        case (Inr u2)
        with \<open>reply_text_of sv db contact nd = Inr r\<close> True sent L k show ?thesis
          by (simp add: execute_flow_node_def)
      qed
    qed
  qed
qed

text \<open>
  Claim C7. Whenever the executor returns, the update it issues on the contact writes a
  next node id (with the time of the clock) that is null when no edge of the graph has
  the node's id as its source, and otherwise the target of the first such edge in
  declaration order, whatever edges with the same source follow it.
\<close>

theorem executor_next_node_id_first_match:
  "fst (execute_flow_node sv db contact nd fd) = Inr () \<longrightarrow>
   (\<exists>next_node_id.
      contacts (snd (execute_flow_node sv db contact nd fd)) =
        update_one (\<lambda>c. doc_id c = IdStr (oid_str contact))
          (\<lambda>c. c\<lparr>current_flow_node_id := next_node_id, last_active := clock db\<rparr>)
          (contacts db) \<and>
      ((\<forall>e\<in>set (edges fd). source e \<noteq> n_id nd) \<longrightarrow> next_node_id = None) \<and>
      (\<forall>pre e post.
         edges fd = pre @ e # post \<and> (\<forall>x\<in>set pre. source x \<noteq> n_id nd) \<and>
         source e = n_id nd \<longrightarrow> next_node_id = target e))"
proof
  assume r: "fst (execute_flow_node sv db contact nd fd) = Inr ()"
  let ?nx = "next_node_id_of (edges fd) (n_id nd)"
  have 1: "contacts (snd (execute_flow_node sv db contact nd fd)) =
        update_one (\<lambda>c. doc_id c = IdStr (oid_str contact))
          (\<lambda>c. c\<lparr>current_flow_node_id := ?nx, last_active := clock db\<rparr>)
          (contacts db)"
    using execute_flow_node_returns [OF r] .
  have 2: "(\<forall>e\<in>set (edges fd). source e \<noteq> n_id nd) \<longrightarrow> ?nx = None"
    using next_node_id_of_none by blast
  have 3: "\<forall>pre e post.
         edges fd = pre @ e # post \<and> (\<forall>x\<in>set pre. source x \<noteq> n_id nd) \<and>
         source e = n_id nd \<longrightarrow> ?nx = target e"
    using next_node_id_of_first by metis
  from 1 2 3 show "\<exists>next_node_id.
      contacts (snd (execute_flow_node sv db contact nd fd)) =
        update_one (\<lambda>c. doc_id c = IdStr (oid_str contact))
          (\<lambda>c. c\<lparr>current_flow_node_id := next_node_id, last_active := clock db\<rparr>)
          (contacts db) \<and>
      ((\<forall>e\<in>set (edges fd). source e \<noteq> n_id nd) \<longrightarrow> next_node_id = None) \<and>
      (\<forall>pre e post.
         edges fd = pre @ e # post \<and> (\<forall>x\<in>set pre. source x \<noteq> n_id nd) \<and>
         source e = n_id nd \<longrightarrow> next_node_id = target e)"
    by blast
qed

theorem executor_next_node_id_first_match_witness:
  "fst (execute_flow_node mock_services (store forked) bob_in_db node_start forked) = Inr () \<and>
   contacts (snd (execute_flow_node mock_services (store forked) bob_in_db node_start forked))
     = [alice, bob\<lparr>current_flow_node_id := Some ''n1'', last_active := 5\<rparr>] \<and>
   contacts (snd (execute_flow_node mock_services (store forked) bob_in_db node_n2 forked))
     = [alice, bob\<lparr>current_flow_node_id := None, last_active := 5\<rparr>]"
proof -
  let ?e0 = "\<lparr>source = Some ''n1'', target = Some ''n2''\<rparr>"
  let ?e1 = "\<lparr>source = Some ''start'', target = Some ''n1''\<rparr>"
  let ?e2 = "\<lparr>source = Some ''start'', target = Some ''n2''\<rparr>"
  have r: "fst (execute_flow_node mock_services (store forked) bob_in_db node_start forked) = Inr ()"
    by code_simp
  from executor_next_node_id_first_match
    [of mock_services "store forked" bob_in_db node_start forked] r
  obtain nx where
    c: "contacts (snd (execute_flow_node mock_services (store forked) bob_in_db node_start forked)) =
        update_one (\<lambda>c. doc_id c = IdStr (oid_str bob_in_db))
          (\<lambda>c. c\<lparr>current_flow_node_id := nx, last_active := clock (store forked)\<rparr>)
          (contacts (store forked))"
    and f: "\<forall>pre e post.
         edges forked = pre @ e # post \<and> (\<forall>x\<in>set pre. source x \<noteq> n_id node_start) \<and>
         source e = n_id node_start \<longrightarrow> nx = target e"
    by blast
  have "edges forked = [?e0] @ ?e1 # [?e2] \<and> (\<forall>x\<in>set [?e0]. source x \<noteq> n_id node_start) \<and>
         source ?e1 = n_id node_start"
    by (simp add: forked_def node_start_def)
  with f have "nx = target ?e1" by blast
  with c have A: "contacts (snd (execute_flow_node mock_services (store forked) bob_in_db
      node_start forked)) = [alice, bob\<lparr>current_flow_node_id := Some ''n1'', last_active := 5\<rparr>]"
    by (simp add: store_def alice_def bob_def bob_in_db_def)
  have B: "contacts (snd (execute_flow_node mock_services (store forked) bob_in_db node_n2 forked))
     = [alice, bob\<lparr>current_flow_node_id := None, last_active := 5\<rparr>]"
    by code_simp
  from r A B show ?thesis by simp
qed

section \<open>The webhook on an empty batch\<close>

text \<open>
  Claim C10. The handler indexes the first message unguarded: on a payload whose list of
  messages is empty it raises an index error, and the database, the log and the
  delivery channel are as they were.
\<close>

theorem webhook_empty_messages_raises:
  "handle_whatsapp_webhook sv new_oid \<lparr>messages = []\<rparr> db = (Inl IndexError, db)"
  by (simp add: handle_whatsapp_webhook_def)

section \<open>Nodes of an unknown type\<close>

lemma reply_text_of_other_type:
  "n_type nd \<noteq> Some ''textMessage'' \<Longrightarrow> n_type nd \<noteq> Some ''aiResponse'' \<Longrightarrow>
   reply_text_of sv db contact nd = Inr None"
  by (simp add: reply_text_of_def)

text \<open>
  Claim C8. A node whose type is neither \<open>textMessage\<close> nor \<open>aiResponse\<close> has no reply
  text: its execution returns without raising, hands nothing to the delivery channel
  and appends nothing to the message log, whatever the two services would do.
\<close>

theorem unknown_node_type_is_pass_through:
  "n_type nd \<noteq> Some ''textMessage'' \<and> n_type nd \<noteq> Some ''aiResponse'' \<longrightarrow>
   reply_text_of sv db contact nd = Inr None \<and>
   fst (execute_flow_node sv db contact nd fd) = Inr () \<and>
   sent (snd (execute_flow_node sv db contact nd fd)) = sent db \<and>
   message_logs (snd (execute_flow_node sv db contact nd fd)) = message_logs db"
  by (simp add: reply_text_of_other_type execute_flow_node_no_reply truthy_def)

theorem unknown_node_type_is_pass_through_witness:
  "reply_text_of failing_services (store triggered) bob_in_db node_start = Inr None \<and>
   fst (execute_flow_node failing_services (store triggered) bob_in_db node_start triggered)
     = Inr () \<and>
   sent (snd (execute_flow_node failing_services (store triggered) bob_in_db node_start
     triggered)) = [] \<and>
   message_logs (snd (execute_flow_node failing_services (store triggered) bob_in_db
     node_start triggered)) = []"
proof -
  have "n_type node_start \<noteq> Some ''textMessage'' \<and> n_type node_start \<noteq> Some ''aiResponse''"
    by (simp add: node_start_def)
  with unknown_node_type_is_pass_through
    [of node_start failing_services "store triggered" bob_in_db triggered]
  show ?thesis by (simp add: store_def)
qed

section \<open>Failing services\<close>

lemma reply_text_of_ai_raises:
  "n_type nd = Some ''aiResponse'' \<Longrightarrow>
   data_get (n_data nd) ''prompt'' (Some []) = Inr prompt \<Longrightarrow>
   get_openai_response sv prompt (get_chat_history db (IdStr (oid_str contact)) 10) = Inl e \<Longrightarrow>
   reply_text_of sv db contact nd = Inl e"
  by (simp add: reply_text_of_def)

text \<open>
  Claim C1 fails on the code: \<open>execute_flow_node\<close> has no handler around the two calls.
  With the delivery service down, executing the text node \<open>n1\<close> (whose edge leads to
  \<open>n2\<close>) for the contact stored under a string identifier raises the service's
  exception and leaves the database as it was: the contact stays at no position with
  its old \<open>last_active\<close>, and nothing is logged. With the mocked services the same
  execution moves that contact to \<open>n2\<close> at the time of the clock.
\<close>

theorem delivery_failure_aborts_counterexample:
  "execute_flow_node failing_services (store two_step) bob_in_db node_n1 two_step
     = (Inl (UpstreamFailure ''whatsapp''), store two_step) \<and>
   next_node_id_of (edges two_step) (n_id node_n1) = Some ''n2'' \<and>
   map current_flow_node_id (contacts (store two_step)) = [None, None] \<and>
   map last_active (contacts (store two_step)) = [0, 0] \<and>
   clock (store two_step) = 5 \<and>
   map current_flow_node_id
     (contacts (snd (execute_flow_node mock_services (store two_step) bob_in_db node_n1
        two_step))) = [None, Some ''n2''] \<and>
   map last_active
     (contacts (snd (execute_flow_node mock_services (store two_step) bob_in_db node_n1
        two_step))) = [0, 5]"
  by code_simp

text \<open>
  Claim C1, amended. When the AI completion call raises, or the delivery call raises for
  a non-empty reply, \<open>execute_flow_node\<close> raises the same exception at once and the
  database, the log and the delivery channel are as they were before the node: no
  contact is updated.
\<close>

theorem upstream_failure_aborts_node:
  "(n_type nd = Some ''aiResponse'' \<and> data_get (n_data nd) ''prompt'' (Some []) = Inr prompt \<and>
    get_openai_response sv prompt (get_chat_history db (IdStr (oid_str contact)) 10) = Inl e \<longrightarrow>
      execute_flow_node sv db contact nd fd = (Inl e, db)) \<and>
   (reply_text_of sv db contact nd = Inr (Some r) \<and> r \<noteq> [] \<and>
    send_whatsapp_reply sv (phone_number contact) r = Inl e' \<longrightarrow>
      execute_flow_node sv db contact nd fd = (Inl e', db))"
  using reply_text_of_ai_raises execute_flow_node_raise_reply execute_flow_node_raise_send
  by blast

theorem upstream_failure_aborts_node_witness:
  "execute_flow_node failing_services (store two_step) bob_in_db
     (Object (Some ''n1'') (Some ''aiResponse'') (Dict [(''prompt'', Some ''greet'')]))
     two_step
     = (Inl (UpstreamFailure ''openai''), store two_step) \<and>
   execute_flow_node failing_services (store two_step) alice_in_db node_n1 two_step
     = (Inl (UpstreamFailure ''whatsapp''), store two_step)"
proof -
  let ?ai = "Object (Some ''n1'') (Some ''aiResponse'') (Dict [(''prompt'', Some ''greet'')])"
  have a1: "n_type ?ai = Some ''aiResponse''" by simp
  have a2: "data_get (n_data ?ai) ''prompt'' (Some []) = Inr (Some ''greet'')"
    by (simp add: data_get_def dict_get_def)
  have a3: "get_openai_response failing_services (Some ''greet'')
              (get_chat_history (store two_step) (IdStr (oid_str bob_in_db)) 10)
            = Inl (UpstreamFailure ''openai'')"
    by (simp add: failing_services_def)
  have b1: "reply_text_of failing_services (store two_step) alice_in_db node_n1 = Inr (Some ''Hi!'')"
    by (simp add: reply_text_of_def node_n1_def data_get_def dict_get_def)
  have b2: "''Hi!'' \<noteq> []" by simp
  have b3: "send_whatsapp_reply failing_services (phone_number alice_in_db) ''Hi!''
            = Inl (UpstreamFailure ''whatsapp'')"
    by (simp add: failing_services_def)
  from upstream_failure_aborts_node
    [of ?ai "Some ''greet''" failing_services "store two_step" bob_in_db
        "UpstreamFailure ''openai''" two_step]
    a1 a2 a3
  have A: "execute_flow_node failing_services (store two_step) bob_in_db ?ai two_step
     = (Inl (UpstreamFailure ''openai''), store two_step)" by blast
  from upstream_failure_aborts_node
    [of node_n1 _ failing_services "store two_step" alice_in_db _ two_step "''Hi!''"
        "UpstreamFailure ''whatsapp''"]
    b1 b2 b3
  have B: "execute_flow_node failing_services (store two_step) alice_in_db node_n1 two_step
     = (Inl (UpstreamFailure ''whatsapp''), store two_step)" by blast
  from A B show ?thesis by simp
qed

section \<open>Resolving the node to execute\<close>

lemma find_first:
  "find P xs = Some x \<Longrightarrow>
   \<exists>pre post. xs = pre @ x # post \<and> P x \<and> (\<forall>m\<in>set pre. \<not> P m)"
proof (induction xs)
  case Nil
  then show ?case by simp
next
  case (Cons a xs)
  show ?case
  proof (cases "P a")
    case True
    with Cons.prems have "a = x" by simp
    with True have "a # xs = [] @ x # xs \<and> P x \<and> (\<forall>m\<in>set []. \<not> P m)" by simp
    then show ?thesis by blast
  next
    case False
    with Cons.prems have "find P xs = Some x" by simp
    from Cons.IH [OF this] obtain pre post
      where "xs = pre @ x # post" "P x" "\<forall>m\<in>set pre. \<not> P m" by blast
    with False have "a # xs = (a # pre) @ x # post \<and> P x \<and> (\<forall>m\<in>set (a # pre). \<not> P m)"
      by simp
    then show ?thesis by blast
  qed
qed

lemma find_decomp:
  "\<forall>m\<in>set pre. \<not> P m \<Longrightarrow> P x \<Longrightarrow> find P (pre @ x # post) = Some x"
  by (induction pre) auto

lemma find_exists: "\<exists>x\<in>set xs. P x \<Longrightarrow> \<exists>y. find P xs = Some y"
  by (induction xs) auto

lemma find_none: "(find P xs = None) = (\<forall>x\<in>set xs. \<not> P x)"
  by (induction xs) auto

lemma resolve_node_found:
  assumes "truthy cur" and "find (\<lambda>n. n_id n = cur) (nodes fd) = Some y"
  shows "resolve_node cur fd = Some y"
proof -
  from assms(2) have "n_id y = cur" using find_first [OF assms(2)] by blast
  with assms(1) have "y \<noteq> EmptyObject" by (auto simp: truthy_def)
  with assms show ?thesis by (simp add: resolve_node_def not_node_def)
qed

lemma resolve_node_fallback:
  assumes "\<not> (truthy cur \<and> (\<exists>n\<in>set (nodes fd). n_id n = cur))"
  shows "resolve_node cur fd =
     (case find (\<lambda>n. n_id n \<notin> set (map target (edges fd))) (nodes fd) of
        None \<Rightarrow> None
      | Some t \<Rightarrow> if t = EmptyObject then None else Some t)"
proof -
  from assms
  have "(if truthy cur then find (\<lambda>n. n_id n = cur) (nodes fd) else None) = None"
    by (auto simp: find_none)
  then show ?thesis
    by (simp add: resolve_node_def not_node_def Let_def split: option.splits)
qed

text \<open>
  Claim C2 fails on the code in two places. The saved position is tested for
  truthiness, not for null: a contact whose saved position is the empty string, in a
  graph that has a node with the empty string as its id (the second node, the target of
  the edge), is resolved to the first node, which no edge targets. And the trigger node
  found is tested for truthiness too: in a graph of two nodes and no edge whose first
  node is the empty object, no trigger node is found.
\<close>

theorem resolve_node_empty_id_counterexample:
  "resolve_node (Some [])
     \<lparr>nodes = [Object (Some ''a'') (Some ''textMessage'') Absent,
               Object (Some []) (Some ''textMessage'') Absent],
      edges = [\<lparr>source = Some ''a'', target = Some []\<rparr>]\<rparr>
   = Some (Object (Some ''a'') (Some ''textMessage'') Absent) \<and>
   resolve_node None \<lparr>nodes = [EmptyObject, node_n1], edges = []\<rparr> = None"
  by (simp add: resolve_node_def truthy_def not_node_def node_n1_def)

text \<open>
  Claim C2, amended. When the contact's saved position is neither null nor the empty
  string and some node of the graph has it as its id, the first such node is returned.
  Otherwise the first node in declaration order whose id is no edge's target is taken:
  it is returned unless it is the empty object, and null is returned when it is the
  empty object or when every node's id is an edge's target (in particular when there is
  no node). Null is returned in no other case.
\<close>

theorem resolve_node_cases:
  "(truthy cur \<and> (\<exists>n\<in>set (nodes fd). n_id n = cur) \<longrightarrow>
      (\<exists>pre n post. nodes fd = pre @ n # post \<and> n_id n = cur \<and>
         (\<forall>m\<in>set pre. n_id m \<noteq> cur) \<and> resolve_node cur fd = Some n)) \<and>
   (\<not> (truthy cur \<and> (\<exists>n\<in>set (nodes fd). n_id n = cur)) \<longrightarrow>
      (\<exists>pre n post. nodes fd = pre @ n # post \<and> n_id n \<notin> set (map target (edges fd)) \<and>
         (\<forall>m\<in>set pre. n_id m \<in> set (map target (edges fd))) \<and>
         resolve_node cur fd = (if n = EmptyObject then None else Some n)) \<or>
      ((\<forall>m\<in>set (nodes fd). n_id m \<in> set (map target (edges fd))) \<and> resolve_node cur fd = None)) \<and>
   (resolve_node cur fd = None \<longleftrightarrow>
      \<not> (truthy cur \<and> (\<exists>n\<in>set (nodes fd). n_id n = cur)) \<and>
      (\<forall>pre n post. nodes fd = pre @ n # post \<and> n_id n \<notin> set (map target (edges fd)) \<and>
         (\<forall>m\<in>set pre. n_id m \<in> set (map target (edges fd))) \<longrightarrow> n = EmptyObject))"
proof (intro conjI impI)
  assume h: "truthy cur \<and> (\<exists>n\<in>set (nodes fd). n_id n = cur)"
  then obtain y where y: "find (\<lambda>n. n_id n = cur) (nodes fd) = Some y"
    using find_exists [of "nodes fd" "\<lambda>n. n_id n = cur"] by blast
  from h y have r: "resolve_node cur fd = Some y" by (simp add: resolve_node_found)
  from find_first [OF y] r
  show "\<exists>pre n post. nodes fd = pre @ n # post \<and> n_id n = cur \<and>
         (\<forall>m\<in>set pre. n_id m \<noteq> cur) \<and> resolve_node cur fd = Some n" by blast
next
  let ?T = "set (map target (edges fd))"
  assume h: "\<not> (truthy cur \<and> (\<exists>n\<in>set (nodes fd). n_id n = cur))"
  note r = resolve_node_fallback [OF h]
  show "(\<exists>pre n post. nodes fd = pre @ n # post \<and> n_id n \<notin> ?T \<and>
         (\<forall>m\<in>set pre. n_id m \<in> ?T) \<and>
         resolve_node cur fd = (if n = EmptyObject then None else Some n)) \<or>
      ((\<forall>m\<in>set (nodes fd). n_id m \<in> ?T) \<and> resolve_node cur fd = None)"
  proof (cases "find (\<lambda>n. n_id n \<notin> ?T) (nodes fd)")
    case None
    then have a: "\<forall>m\<in>set (nodes fd). n_id m \<in> ?T" by (simp add: find_none)
    from r None have "resolve_node cur fd = None" by simp
    with a show ?thesis by blast
  next
    case (Some y)
    from find_first [OF Some] obtain pre post where
      "nodes fd = pre @ y # post" "n_id y \<notin> ?T" "\<forall>m\<in>set pre. n_id m \<in> ?T" by blast
    moreover from r Some have "resolve_node cur fd = (if y = EmptyObject then None else Some y)"
      by simp
    ultimately show ?thesis by blast
  qed
next
  let ?T = "set (map target (edges fd))"
  let ?F = "truthy cur \<and> (\<exists>n\<in>set (nodes fd). n_id n = cur)"
  let ?E = "\<forall>pre n post. nodes fd = pre @ n # post \<and> n_id n \<notin> ?T \<and>
         (\<forall>m\<in>set pre. n_id m \<in> ?T) \<longrightarrow> n = EmptyObject"
  show "resolve_node cur fd = None \<longleftrightarrow> \<not> ?F \<and> ?E"
  proof (cases ?F)
    case True
    then obtain y where y: "find (\<lambda>n. n_id n = cur) (nodes fd) = Some y"
      using find_exists [of "nodes fd" "\<lambda>n. n_id n = cur"] by blast
    with True show ?thesis by (simp add: resolve_node_found)
  next
    case False
    note r = resolve_node_fallback [OF False]
    show ?thesis
    proof (cases "find (\<lambda>n. n_id n \<notin> ?T) (nodes fd)")
      case None
      then have "\<forall>x\<in>set (nodes fd). n_id x \<in> ?T" by (simp add: find_none)
      then have ?E by auto
      with r None False show ?thesis by simp
    next
      case (Some y)
      have "?E \<longleftrightarrow> y = EmptyObject"
      proof
        assume e: ?E
        from find_first [OF Some] obtain pre post where
          "nodes fd = pre @ y # post" "n_id y \<notin> ?T" "\<forall>m\<in>set pre. n_id m \<in> ?T" by blast
        with e show "y = EmptyObject" by blast
      next
        assume y: "y = EmptyObject"
        show ?E
        proof (intro allI impI)
          fix pre n post
          assume d: "nodes fd = pre @ n # post \<and> n_id n \<notin> ?T \<and> (\<forall>m\<in>set pre. n_id m \<in> ?T)"
          then have "find (\<lambda>n. n_id n \<notin> ?T) (pre @ n # post) = Some n"
            by (intro find_decomp) auto
          with d Some y show "n = EmptyObject" by simp
        qed
      qed
      with r Some False show ?thesis by simp
    qed
  qed
qed

theorem resolve_node_cases_witness:
  "resolve_node (Some ''n2'') two_step = Some node_n2 \<and>
   resolve_node (Some ''gone'') two_step = Some node_n1 \<and>
   resolve_node None two_step = Some node_n1 \<and>
   resolve_node None \<lparr>nodes = [node_n2], edges = edges two_step\<rparr> = None"
proof -
  have t: "truthy (Some ''n2'') \<and> (\<exists>n\<in>set (nodes two_step). n_id n = Some ''n2'')"
    by (simp add: truthy_def two_step_def node_n1_def node_n2_def)
  from resolve_node_cases [of "Some ''n2''" two_step] t
  obtain pre n post where
    p: "nodes two_step = pre @ n # post" "n_id n = Some ''n2''"
       "resolve_node (Some ''n2'') two_step = Some n"
    by blast
  from p(1) have "n \<in> set [node_n1, node_n2]" by (simp add: two_step_def)
  with p(2) have "n = node_n2" by (auto simp: node_n1_def)
  with p(3) have A: "resolve_node (Some ''n2'') two_step = Some node_n2" by simp
  let ?g = "\<lparr>nodes = [node_n2], edges = edges two_step\<rparr>"
  have D: "resolve_node None ?g = None"
    by (simp add: resolve_node_def truthy_def not_node_def two_step_def node_n2_def)
  have B: "resolve_node (Some ''gone'') two_step = Some node_n1"
    by (simp add: resolve_node_def truthy_def not_node_def two_step_def node_n1_def node_n2_def)
  have C: "resolve_node None two_step = Some node_n1"
    by (simp add: resolve_node_def truthy_def not_node_def two_step_def node_n1_def node_n2_def)
  from A B C D show ?thesis by simp
qed

section \<open>Chat history\<close>

lemma mset_insert_desc: "mset (insert_desc x ys) = add_mset x (mset ys)"
  by (induction ys) auto

lemma mset_sort_desc: "mset (sort_desc ls) = mset ls"
  by (induction ls) (auto simp: sort_desc_def mset_insert_desc)

lemma set_insert_desc: "set (insert_desc x ys) = insert x (set ys)"
  by (induction ys) auto

lemma sorted_insert_desc:
  "sorted_wrt (\<lambda>a b. timestamp b \<le> timestamp a) ys \<Longrightarrow>
   sorted_wrt (\<lambda>a b. timestamp b \<le> timestamp a) (insert_desc x ys)"
  by (induction ys) (auto simp: set_insert_desc)

lemma sorted_sort_desc: "sorted_wrt (\<lambda>a b. timestamp b \<le> timestamp a) (sort_desc ls)"
  by (induction ls) (auto simp: sort_desc_def sorted_insert_desc)

lemma foldl_append_map: "foldl (\<lambda>h x. h @ [f x]) acc xs = acc @ map f xs"
  by (induction xs arbitrary: acc) auto

lemma get_chat_history_eq:
  "get_chat_history db cid lim =
     map role_content
       (rev (limit_cursor lim (sort_desc (filter (\<lambda>l. contact_id l = cid) (message_logs db)))))"
  by (simp add: get_chat_history_def foldl_append_map rev_map)

lemma newest_first_prefix:
  assumes "sorted_wrt (\<lambda>a b. timestamp b \<le> timestamp a) xs"
  shows "sorted (map timestamp (rev (take n xs)))"
    and "\<forall>a\<in>set (take n xs). \<forall>b\<in>set (drop n xs). timestamp b \<le> timestamp a"
proof -
  from assms have "sorted_wrt (\<lambda>a b. timestamp b \<le> timestamp a) (take n xs @ drop n xs)"
    by simp
  then have t: "sorted_wrt (\<lambda>a b. timestamp b \<le> timestamp a) (take n xs)"
    and d: "\<forall>a\<in>set (take n xs). \<forall>b\<in>set (drop n xs). timestamp b \<le> timestamp a"
    unfolding sorted_wrt_append by blast+
  from t show "sorted (map timestamp (rev (take n xs)))"
    by (simp add: sorted_map sorted_wrt_rev)
  from d show "\<forall>a\<in>set (take n xs). \<forall>b\<in>set (drop n xs). timestamp b \<le> timestamp a" .
qed

lemma three_logs_history:
  "get_chat_history history_store (IdStr ''c1'') 2 = [(''assistant'', ''two''), (''user'', ''three'')]"
  by code_simp

text \<open>
  Claim C6 fails on the code for the limit 0, which the cursor takes as no limit: with
  one entry logged for the contact, the history of limit 0 has that one entry.
\<close>

theorem chat_history_limit_zero_counterexample:
  "get_chat_history
     \<lparr>contacts = [], flows = [],
      message_logs =
        [\<lparr>log_id = None, contact_id = IdStr ''c1'', from_number = ''+15551234567'',
          direction = ''inbound'', text_of = ''hello'', timestamp = 1\<rparr>],
      sent = [], clock = 5\<rparr> (IdStr ''c1'') 0
   = [(''user'', ''hello'')]"
  by code_simp

text \<open>
  Claim C6, amended. For a positive limit (10 by default), the history of a contact is
  a list of at most \<open>limit\<close> entries, each the image of a log entry of that contact with
  role \<open>user\<close> for the direction \<open>inbound\<close> and \<open>assistant\<close> otherwise; the log entries
  taken are \<open>limit\<close> of the contact's entries (all of them when there are fewer), none
  older than an entry left out, and they come oldest first. The query is a function of
  the database and changes nothing.
\<close>

theorem chat_history_most_recent_oldest_first:
  "0 < lim \<longrightarrow>
   (\<exists>ls. get_chat_history db cid lim =
            map (\<lambda>l. (if direction l = ''inbound'' then ''user'' else ''assistant'', text_of l)) ls \<and>
         length ls \<le> nat lim \<and>
         length ls = min (nat lim) (length (filter (\<lambda>l. contact_id l = cid) (message_logs db))) \<and>
         mset ls \<subseteq># mset (filter (\<lambda>l. contact_id l = cid) (message_logs db)) \<and>
         sorted (map timestamp ls) \<and>
         (\<forall>a\<in>set ls.
            \<forall>b\<in>#(mset (filter (\<lambda>l. contact_id l = cid) (message_logs db)) - mset ls).
              timestamp b \<le> timestamp a))"
proof
  assume pos: "0 < lim"
  let ?F = "filter (\<lambda>l. contact_id l = cid) (message_logs db)"
  let ?S = "sort_desc ?F"
  let ?ls = "rev (take (nat lim) ?S)"
  have len: "length ?S = length ?F"
    using mset_sort_desc [of ?F] by (metis size_mset)
  have split: "mset ?F = mset (take (nat lim) ?S) + mset (drop (nat lim) ?S)"
    using mset_sort_desc [of ?F] by (metis append_take_drop_id mset_append)
  have 1: "get_chat_history db cid lim =
      map (\<lambda>l. (if direction l = ''inbound'' then ''user'' else ''assistant'', text_of l)) ?ls"
    using pos by (simp add: get_chat_history_eq limit_cursor_def role_content_def)
  have 2: "length ?ls = min (nat lim) (length ?F)"
    using len by simp
  have 3: "mset ?ls \<subseteq># mset ?F"
    using split by simp
  have 4: "sorted (map timestamp ?ls)"
    using newest_first_prefix(1) [OF sorted_sort_desc] .
  have diff: "mset ?F - mset ?ls = mset (drop (nat lim) ?S)"
    using split by simp
  have 5: "\<forall>a\<in>set ?ls. \<forall>b\<in>#(mset ?F - mset ?ls). timestamp b \<le> timestamp a"
    unfolding diff using newest_first_prefix(2) [OF sorted_sort_desc, of "nat lim" ?F]
    by simp
  from 1 2 3 4 5 show "\<exists>ls. get_chat_history db cid lim =
            map (\<lambda>l. (if direction l = ''inbound'' then ''user'' else ''assistant'', text_of l)) ls \<and>
         length ls \<le> nat lim \<and>
         length ls = min (nat lim) (length ?F) \<and>
         mset ls \<subseteq># mset ?F \<and>
         sorted (map timestamp ls) \<and>
         (\<forall>a\<in>set ls. \<forall>b\<in>#(mset ?F - mset ls). timestamp b \<le> timestamp a)"
    by (intro exI [of _ ?ls]) simp
qed

theorem chat_history_most_recent_oldest_first_witness:
  "length (get_chat_history history_store (IdStr ''c1'') 2) \<le> 2 \<and>
   get_chat_history history_store (IdStr ''c1'') 2
     = [(''assistant'', ''two''), (''user'', ''three'')]"
proof -
  have pos: "(0::int) < 2" by simp
  from mp [OF chat_history_most_recent_oldest_first [of 2 history_store "IdStr ''c1''"] pos]
  have "length (get_chat_history history_store (IdStr ''c1'') 2) \<le> 2"
    by (elim exE conjE) simp
  with three_logs_history show ?thesis by simp
qed

section \<open>The single active flow\<close>

lemma map_key_update_one:
  "(\<And>x. k (f x) = k x) \<Longrightarrow> map k (update_one P f xs) = map k xs"
  by (induction xs) auto

lemma map_key_update_many:
  "(\<And>x. k (f x) = k x) \<Longrightarrow> map k (update_many P f xs) = map k xs"
  by (simp add: update_many_def)

lemma filter_le_filter:
  "(\<And>x. x \<in> set xs \<Longrightarrow> P x \<Longrightarrow> Q x) \<Longrightarrow> length (filter P xs) \<le> length (filter Q xs)"
  by (induction xs) auto

lemma distinct_key_filter:
  "distinct (map k xs) \<Longrightarrow> length (filter (\<lambda>x. k x = v) xs) \<le> 1"
proof (induction xs)
  case Nil
  then show ?case by simp
next
  case (Cons a xs)
  show ?case
  proof (cases "k a = v")
    case True
    with Cons.prems have "\<forall>x\<in>set xs. k x \<noteq> v" by (auto simp: image_def)
    then have "filter (\<lambda>x. k x = v) xs = []" by (simp add: filter_empty_conv)
    with True show ?thesis by simp
  next
    case False
    with Cons show ?thesis by simp
  qed
qed

lemma distinct_some: "distinct (map k xs) \<Longrightarrow> distinct (map (\<lambda>x. Some (k x)) xs)"
  by (induction xs) auto

lemma update_one_filter_le:
  "(\<And>x. A (f x) \<Longrightarrow> A x) \<Longrightarrow>
   length (filter A (update_one P f xs)) \<le> length (filter A xs)"
  by (induction xs) auto

lemma set_update_one:
  "y \<in> set (update_one P f xs) \<Longrightarrow> y \<in> set xs \<or> (\<exists>x\<in>set xs. P x \<and> y = f x)"
  by (induction xs) (auto split: if_splits)

lemma deactivate_all:
  "x \<in> set (update_many (\<lambda>f. is_active f = Some True) deactivate fs) \<Longrightarrow>
   is_active x \<noteq> Some True"
  by (auto simp: update_many_def deactivate_def)

lemma deactivate_others:
  "x \<in> set (update_many (\<lambda>f. Some (flow_id f) \<noteq> oid \<and> is_active f = Some True) deactivate fs) \<Longrightarrow>
   is_active x = Some True \<Longrightarrow> Some (flow_id x) = oid"
  by (auto simp: update_many_def deactivate_def split: if_splits)

lemma flow_id_deactivate: "flow_id (deactivate f) = flow_id f"
  by (simp add: deactivate_def)

lemma flow_id_apply_set: "flow_id (apply_set u f) = flow_id f"
  by (simp add: apply_set_def)

lemma create_flow_flows:
  "flows (snd (create_flow new_oid flow db)) =
     (let fs = (if new_is_active flow
                then update_many (\<lambda>f. is_active f = Some True) deactivate (flows db)
                else flows db);
          d = \<lparr>flow_id = ObjectId new_oid, flow_name = Some (new_name flow),
               flow_data = Some (new_flow_data flow), is_active = Some (new_is_active flow)\<rparr>
      in if ObjectId new_oid \<in> set (map flow_id fs) then fs else fs @ [d])"
  by (simp add: create_flow_def insert_one_def Let_def split: option.splits)

lemma update_flow_flows:
  "flows (snd (update_flow ident u db)) =
     (if \<not> is_valid ident \<or> no_update_data u
      then flows db
      else update_one (\<lambda>f. Some (flow_id f) = object_id ident) (apply_set u)
             (if upd_is_active u = Some (Some True)
              then update_many
                     (\<lambda>f. Some (flow_id f) \<noteq> object_id ident \<and> is_active f = Some True)
                     deactivate (flows db)
              else flows db))"
proof (cases "\<not> is_valid ident \<or> no_update_data u")
  case True
  then show ?thesis by (auto simp: update_flow_def)
next
  case False
  then show ?thesis
    by (simp add: update_flow_def Let_def split: option.splits)
qed

lemma create_flow_distinct:
  "distinct (map flow_id (flows db)) \<Longrightarrow>
   distinct (map flow_id (flows (snd (create_flow new_oid flow db))))"
  by (simp add: create_flow_flows Let_def map_key_update_many flow_id_deactivate)

lemma create_flow_active_is_new:
  "new_is_active flow \<Longrightarrow> f \<in> set (flows (snd (create_flow new_oid flow db))) \<Longrightarrow>
   is_active f = Some True \<Longrightarrow> flow_id f = ObjectId new_oid"
  by (auto simp: create_flow_flows Let_def split: if_splits dest: deactivate_all)

lemma create_flow_single_active:
  assumes "at_most_one_active (flows db)"
  shows "at_most_one_active (flows (snd (create_flow new_oid flow db)))"
proof (cases "new_is_active flow")
  case True
  have "filter (\<lambda>f. is_active f = Some True)
          (update_many (\<lambda>f. is_active f = Some True) deactivate (flows db)) = []"
    using deactivate_all by (auto simp: filter_empty_conv)
  with True show ?thesis
    by (simp add: at_most_one_active_def create_flow_flows Let_def)
next
  case False
  with assms show ?thesis
    by (simp add: at_most_one_active_def create_flow_flows Let_def)
qed

lemma update_flow_distinct:
  "distinct (map flow_id (flows db)) \<Longrightarrow>
   distinct (map flow_id (flows (snd (update_flow ident u db))))"
  by (simp add: update_flow_flows map_key_update_one map_key_update_many
      flow_id_deactivate flow_id_apply_set)

lemma update_flow_active_is_target:
  assumes "upd_is_active u = Some (Some True)" and "is_valid ident"
    and "f \<in> set (flows (snd (update_flow ident u db)))" and "is_active f = Some True"
  shows "Some (flow_id f) = object_id ident"
proof -
  let ?oid = "object_id ident"
  let ?fs = "update_many (\<lambda>f. Some (flow_id f) \<noteq> ?oid \<and> is_active f = Some True) deactivate (flows db)"
  from assms(1,2,3) have "f \<in> set (update_one (\<lambda>f. Some (flow_id f) = ?oid) (apply_set u) ?fs)"
    by (simp add: update_flow_flows no_update_data_def)
  from set_update_one [OF this]
  show ?thesis
  proof
    assume "f \<in> set ?fs"
    with assms(4) show ?thesis using deactivate_others by blast
  next
    assume "\<exists>x\<in>set ?fs. Some (flow_id x) = ?oid \<and> f = apply_set u x"
    then show ?thesis by (auto simp: flow_id_apply_set)
  qed
qed

lemma update_flow_single_active:
  assumes d: "distinct (map flow_id (flows db))" and a: "at_most_one_active (flows db)"
  shows "at_most_one_active (flows (snd (update_flow ident u db)))"
proof (cases "\<not> is_valid ident \<or> no_update_data u")
  case True
  with a show ?thesis by (auto simp: update_flow_flows)
next
  case False
  then have v: "is_valid ident" by blast
  let ?oid = "object_id ident"
  let ?R = "flows (snd (update_flow ident u db))"
  show ?thesis
  proof (cases "upd_is_active u = Some (Some True)")
    case True
    have "length (filter (\<lambda>f. is_active f = Some True) ?R)
            \<le> length (filter (\<lambda>f. Some (flow_id f) = ?oid) ?R)"
      using update_flow_active_is_target [OF True v] by (intro filter_le_filter) blast
    also have "\<dots> \<le> 1"
      using distinct_key_filter [of "\<lambda>f. Some (flow_id f)", OF distinct_some [OF update_flow_distinct [OF d]]] .
    finally show ?thesis by (simp add: at_most_one_active_def)
  next
    case nt: False
    have keep: "\<And>x. is_active (apply_set u x) = Some True \<Longrightarrow> is_active x = Some True"
      using nt by (auto simp: apply_set_def split: option.splits)
    have "?R = update_one (\<lambda>f. Some (flow_id f) = ?oid) (apply_set u) (flows db)"
      using False nt by (simp add: update_flow_flows)
    then have "length (filter (\<lambda>f. is_active f = Some True) ?R)
            \<le> length (filter (\<lambda>f. is_active f = Some True) (flows db))"
      using update_one_filter_le [of "\<lambda>f. is_active f = Some True" "apply_set u", OF keep]
      by simp
    with a show ?thesis by (simp add: at_most_one_active_def)
  qed
qed

text \<open>
  Claim C9. \<open>create_flow\<close> and \<open>update_flow\<close> keep the invariant of the collection of
  flows, whatever they are given and however they end: identifiers stay distinct and at
  most one flow is active. Creating a flow as active leaves no other flow active, and
  so does an update that sets \<open>is_active\<close> to true: the others are deactivated before
  the flow is written.
\<close>

theorem flow_endpoints_keep_single_active:
  "distinct (map flow_id (flows db)) \<and> at_most_one_active (flows db) \<longrightarrow>
     distinct (map flow_id (flows (snd (create_flow new_oid flow db)))) \<and>
     at_most_one_active (flows (snd (create_flow new_oid flow db))) \<and>
     distinct (map flow_id (flows (snd (update_flow ident u db)))) \<and>
     at_most_one_active (flows (snd (update_flow ident u db))) \<and>
     (new_is_active flow \<longrightarrow>
        (\<forall>f\<in>set (flows (snd (create_flow new_oid flow db))).
           is_active f = Some True \<longrightarrow> flow_id f = ObjectId new_oid)) \<and>
     (upd_is_active u = Some (Some True) \<and> is_valid ident \<longrightarrow>
        (\<forall>f\<in>set (flows (snd (update_flow ident u db))).
           is_active f = Some True \<longrightarrow> Some (flow_id f) = object_id ident))"
  using create_flow_distinct create_flow_single_active update_flow_distinct
    update_flow_single_active create_flow_active_is_new update_flow_active_is_target
  by blast

theorem flow_endpoints_keep_single_active_witness:
  "at_most_one_active
     (flows (snd (create_flow 4
        \<lparr>new_name = ''new'', new_flow_data = two_step, new_is_active = True\<rparr> two_flows))) \<and>
   at_most_one_active
     (flows (snd (update_flow ''000000000000000000000003''
        \<lparr>upd_name = None, upd_flow_data = None, upd_is_active = Some (Some True)\<rparr>
        two_flows))) \<and>
   map is_active
     (flows (snd (create_flow 4
        \<lparr>new_name = ''new'', new_flow_data = two_step, new_is_active = True\<rparr> two_flows)))
     = [Some False, Some False, Some True] \<and>
   map is_active
     (flows (snd (update_flow ''000000000000000000000003''
        \<lparr>upd_name = None, upd_flow_data = None, upd_is_active = Some (Some True)\<rparr>
        two_flows)))
     = [Some False, Some True]"
proof -
  have h: "distinct (map flow_id (flows two_flows)) \<and> at_most_one_active (flows two_flows)"
    by (simp add: two_flows_def at_most_one_active_def)
  have c: "map is_active
     (flows (snd (create_flow 4
        \<lparr>new_name = ''new'', new_flow_data = two_step, new_is_active = True\<rparr> two_flows)))
     = [Some False, Some False, Some True]"
    by code_simp
  have u: "map is_active
     (flows (snd (update_flow ''000000000000000000000003''
        \<lparr>upd_name = None, upd_flow_data = None, upd_is_active = Some (Some True)\<rparr>
        two_flows)))
     = [Some False, Some True]"
    by code_simp
  from h flow_endpoints_keep_single_active
    [of two_flows 4 "\<lparr>new_name = ''new'', new_flow_data = two_step, new_is_active = True\<rparr>"
        "''000000000000000000000003''"
        "\<lparr>upd_name = None, upd_flow_data = None, upd_is_active = Some (Some True)\<rparr>"]
  have "at_most_one_active
     (flows (snd (create_flow 4
        \<lparr>new_name = ''new'', new_flow_data = two_step, new_is_active = True\<rparr> two_flows))) \<and>
   at_most_one_active
     (flows (snd (update_flow ''000000000000000000000003''
        \<lparr>upd_name = None, upd_flow_data = None, upd_is_active = Some (Some True)\<rparr>
        two_flows)))"
    by blast
  with c u show ?thesis by simp
qed

section \<open>After the first logged message\<close>

lemma log_message_refused:
  "None \<in> set (map log_id (message_logs db)) \<Longrightarrow> \<exists>e. log_message db cid f d t = (Inl e, db)"
  by (cases "validate cid") (simp_all add: log_message_def insert_one_def)

lemma log_message_logged:
  "log_message db cid f d t = (Inr u, db') \<Longrightarrow> None \<in> set (map log_id (message_logs db'))"
  by (cases "validate cid")
     (auto simp: log_message_def insert_one_def Let_def split: if_splits)

lemma log_message_grows:
  "None \<in> set (map log_id (message_logs db)) \<Longrightarrow>
   None \<in> set (map log_id (message_logs (snd (log_message db cid f d t))))"
  using log_message_refused [of db cid f d t] by auto

lemma execute_flow_node_keeps_null_log:
  assumes "None \<in> set (map log_id (message_logs db))"
  shows "None \<in> set (map log_id (message_logs (snd (execute_flow_node sv db contact nd fd))))"
proof (cases "reply_text_of sv db contact nd")
  case (Inl e)
  with assms show ?thesis by (simp add: execute_flow_node_raise_reply)
next
  case (Inr r)
  show ?thesis
  proof (cases "truthy r")
    case False
    with Inr assms show ?thesis by (simp add: execute_flow_node_no_reply)
  next
    case True
    show ?thesis
    proof (cases "send_whatsapp_reply sv (phone_number contact) (the r)")
      case (Inl e)
      with Inr True assms show ?thesis by (simp add: execute_flow_node_def)
    next
      case sent: (Inr u)
      let ?db1 = "db\<lparr>sent := sent db @ [(phone_number contact, the r)]\<rparr>"
      from assms have "None \<in> set (map log_id (message_logs ?db1))" by simp
      from log_message_refused [OF this]
      obtain e where "log_message ?db1 (IdStr (oid_str contact)) (phone_number contact)
          ''outbound'' (the r) = (Inl e, ?db1)" by blast
      with Inr True sent assms show ?thesis by (simp add: execute_flow_node_def)
    qed
  qed
qed

lemma run_active_flow_keeps_null_log:
  assumes "None \<in> set (map log_id (message_logs db))"
  shows "None \<in> set (map log_id (message_logs (snd (run_active_flow sv db contact))))"
proof -
  have "snd (run_active_flow sv db contact) = db \<or>
    (\<exists>nd fd. snd (run_active_flow sv db contact) = snd (execute_flow_node sv db contact nd fd))"
    by (auto simp: run_active_flow_def split: option.splits prod.splits sum.splits)
       (metis snd_conv)+
  with assms execute_flow_node_keeps_null_log show ?thesis by auto
qed

lemma find_or_create_effects:
  "message_logs (snd (find_or_create_contact new_oid p db)) = message_logs db \<and>
   flows (snd (find_or_create_contact new_oid p db)) = flows db \<and>
   (\<exists>extra. contacts (snd (find_or_create_contact new_oid p db)) = contacts db @ extra)"
  by (auto simp: find_or_create_contact_def insert_one_def Let_def split: option.splits)

text \<open>An answer of the handler means that the inbound message was logged.\<close>

lemma handler_answer_logged:
  assumes "handle_whatsapp_webhook sv new_oid payload db = (Inr r, db')"
  shows "None \<in> set (map log_id (message_logs db'))"
proof (cases "messages payload")
  case Nil
  with assms show ?thesis by (simp add: handle_whatsapp_webhook_def)
next
  case (Cons m ms)
  obtain rc db1 where F: "find_or_create_contact new_oid (sender m) db = (rc, db1)"
    by (cases "find_or_create_contact new_oid (sender m) db")
  show ?thesis
  proof (cases rc)
    case (Inl e)
    with assms Cons F show ?thesis by (simp add: handle_whatsapp_webhook_def)
  next
    case d: (Inr d)
    show ?thesis
    proof (cases "ContactInDB d")
      case (Inl e)
      with assms Cons F d show ?thesis by (simp add: handle_whatsapp_webhook_def)
    next
      case c: (Inr contact)
      obtain rl db2 where L: "log_message db1 (IdStr (oid_str contact)) (sender m)
          ''inbound'' (body m) = (rl, db2)"
        by (cases "log_message db1 (IdStr (oid_str contact)) (sender m) ''inbound'' (body m)")
      show ?thesis
      proof (cases rl)
        case (Inl e)
        with assms Cons F d c L show ?thesis by (simp add: handle_whatsapp_webhook_def)
      next
        case (Inr u)
        with L have n: "None \<in> set (map log_id (message_logs db2))"
          using log_message_logged by blast
        from assms Cons F d c L Inr have "db' = snd (run_active_flow sv db2 contact)"
          by (simp add: handle_whatsapp_webhook_def)
        with run_active_flow_keeps_null_log [OF n] show ?thesis by simp
      qed
    qed
  qed
qed

text \<open>
  Once a log entry is stored under the null \<open>_id\<close>, the handler raises on every event
  before it reaches the active flow: it logs nothing, and writes no stored contact.
\<close>

lemma handler_frozen:
  assumes "None \<in> set (map log_id (message_logs db))"
  shows "(\<exists>e. fst (handle_whatsapp_webhook sv new_oid payload db) = Inl e) \<and>
     message_logs (snd (handle_whatsapp_webhook sv new_oid payload db)) = message_logs db \<and>
     flows (snd (handle_whatsapp_webhook sv new_oid payload db)) = flows db \<and>
     (\<exists>extra. contacts (snd (handle_whatsapp_webhook sv new_oid payload db)) = contacts db @ extra)"
proof (cases "messages payload")
  case Nil
  then show ?thesis by (simp add: handle_whatsapp_webhook_def)
next
  case (Cons m ms)
  obtain rc db1 where F: "find_or_create_contact new_oid (sender m) db = (rc, db1)"
    by (cases "find_or_create_contact new_oid (sender m) db")
  from find_or_create_effects [of new_oid "sender m" db] F
  obtain extra where k: "message_logs db1 = message_logs db" "flows db1 = flows db"
    "contacts db1 = contacts db @ extra" by auto
  show ?thesis
  proof (cases rc)
    case (Inl e)
    with Cons F k show ?thesis by (simp add: handle_whatsapp_webhook_def)
  next
    case d: (Inr d)
    show ?thesis
    proof (cases "ContactInDB d")
      case (Inl e)
      with Cons F d k show ?thesis by (simp add: handle_whatsapp_webhook_def)
    next
      case c: (Inr contact)
      from assms k(1) have "None \<in> set (map log_id (message_logs db1))" by simp
      from log_message_refused [OF this]
      obtain e where "log_message db1 (IdStr (oid_str contact)) (sender m)
          ''inbound'' (body m) = (Inl e, db1)" by blast
      with Cons F d c k show ?thesis by (simp add: handle_whatsapp_webhook_def)
    qed
  qed
qed

lemma handle_events_frozen:
  "None \<in> set (map log_id (message_logs db)) \<Longrightarrow>
   flows (handle_events sv evs db) = flows db \<and>
   (\<exists>extra. contacts (handle_events sv evs db) = contacts db @ extra)"
proof (induction evs arbitrary: db)
  case Nil
  then show ?case by simp
next
  case (Cons ev evs)
  obtain new_oid payload where ev: "ev = (new_oid, payload)" by (cases ev)
  let ?db1 = "snd (handle_whatsapp_webhook sv new_oid payload db)"
  from handler_frozen [OF Cons.prems, of sv new_oid payload]
  obtain extra where a: "message_logs ?db1 = message_logs db" "flows ?db1 = flows db"
    "contacts ?db1 = contacts db @ extra" by blast
  from a(1) Cons.prems have "None \<in> set (map log_id (message_logs ?db1))" by simp
  from Cons.IH [OF this] obtain extra' where
    "flows (handle_events sv evs ?db1) = flows ?db1"
    "contacts (handle_events sv evs ?db1) = contacts ?db1 @ extra'" by blast
  with a ev show ?case by simp
qed

lemma find_append_found: "find P xs = Some x \<Longrightarrow> find P (xs @ ys) = Some x"
  by (induction xs) (auto split: if_splits)

section \<open>A contact at a dead end\<close>

text \<open>
  Claim C3. Take the store as an inbound event leaves it when the handler answers (the
  event that executed a node for the contact and persisted its position), and a contact
  that is stored there at the null position. Then after every sequence of later inbound
  events, of any senders, the active flow is unchanged and that contact is still stored
  at the null position.
\<close>

theorem dead_end_position_is_stable:
  assumes "handle_whatsapp_webhook sv new_oid payload db0 = (Inr r, db)"
    and "find (\<lambda>c. phone_number c = ph) (contacts db) = Some c"
    and "current_flow_node_id c = None"
  shows "flows (handle_events sv' evs db) = flows db \<and>
     (\<exists>c'. find (\<lambda>c. phone_number c = ph) (contacts (handle_events sv' evs db)) = Some c' \<and>
           current_flow_node_id c' = None)"
proof -
  from handler_answer_logged [OF assms(1)]
  have n: "None \<in> set (map log_id (message_logs db))" .
  from handle_events_frozen [OF n, of sv' evs] obtain extra where
    f: "flows (handle_events sv' evs db) = flows db"
    and c: "contacts (handle_events sv' evs db) = contacts db @ extra" by blast
  from c assms(2)
  have "find (\<lambda>c. phone_number c = ph) (contacts (handle_events sv' evs db)) = Some c"
    by (simp add: find_append_found)
  with f assms(3) show ?thesis by simp
qed

theorem dead_end_position_is_stable_witness:
  "handle_whatsapp_webhook mock_services 9
     \<lparr>messages = [\<lparr>sender = ''+15557654321'', body = ''hello''\<rparr>]\<rparr> dead_end_store
   = (Inr MessageProcessed,
      dead_end_store
        \<lparr>contacts := [alice, bob\<lparr>last_active := 5\<rparr>],
         message_logs :=
           [\<lparr>log_id = None, contact_id = IdStr ''0000000000000000000000b0'',
             from_number = ''+15557654321'', direction = ''inbound'', text_of = ''hello'',
             timestamp = 5\<rparr>]\<rparr>) \<and>
   (\<exists>c'. find (\<lambda>c. phone_number c = ''+15557654321'')
           (contacts (handle_events failing_services
              [(10, \<lparr>messages = [\<lparr>sender = ''+15557654321'', body = ''again''\<rparr>]\<rparr>),
               (11, \<lparr>messages = [\<lparr>sender = ''+15551234567'', body = ''hi''\<rparr>]\<rparr>),
               (12, \<lparr>messages = [\<lparr>sender = ''+15550000000'', body = ''new''\<rparr>]\<rparr>)]
              (dead_end_store
                \<lparr>contacts := [alice, bob\<lparr>last_active := 5\<rparr>],
                 message_logs :=
                   [\<lparr>log_id = None, contact_id = IdStr ''0000000000000000000000b0'',
                     from_number = ''+15557654321'', direction = ''inbound'',
                     text_of = ''hello'', timestamp = 5\<rparr>]\<rparr>))) = Some c' \<and>
         current_flow_node_id c' = None)"
proof -
  let ?db = "dead_end_store
        \<lparr>contacts := [alice, bob\<lparr>last_active := 5\<rparr>],
         message_logs :=
           [\<lparr>log_id = None, contact_id = IdStr ''0000000000000000000000b0'',
             from_number = ''+15557654321'', direction = ''inbound'', text_of = ''hello'',
             timestamp = 5\<rparr>]\<rparr>"
  have h1: "handle_whatsapp_webhook mock_services 9
     \<lparr>messages = [\<lparr>sender = ''+15557654321'', body = ''hello''\<rparr>]\<rparr> dead_end_store
     = (Inr MessageProcessed, ?db)"
    by code_simp
  have h2: "find (\<lambda>c. phone_number c = ''+15557654321'') (contacts ?db)
     = Some (bob\<lparr>last_active := 5\<rparr>)"
    by (simp add: alice_def bob_def)
  have h3: "current_flow_node_id (bob\<lparr>last_active := 5\<rparr>) = None"
    by (simp add: bob_def)
  from dead_end_position_is_stable [OF h1 h2 h3] h1 show ?thesis by blast
qed

section \<open>The second inbound message\<close>

text \<open>
  Claim C5, on the second message a store receives. With no active flow, the first
  message of a known sender is logged and answered; the next message of the same sender
  raises the store's duplicate key error, because the first log entry was inserted
  under the null \<open>_id\<close> and the second one carries it too: no inbound entry is appended
  and the handler gives no answer.
\<close>

theorem second_inbound_message_not_logged:
  "handle_whatsapp_webhook mock_services 9
     \<lparr>messages = [\<lparr>sender = ''+15551234567'', body = ''hello''\<rparr>]\<rparr> idle_store
   = (Inr NoActiveFlow,
      idle_store\<lparr>message_logs :=
        [\<lparr>log_id = None, contact_id = IdStr ''000000000000000000000001'',
          from_number = ''+15551234567'', direction = ''inbound'', text_of = ''hello'',
          timestamp = 5\<rparr>]\<rparr>) \<and>
   handle_whatsapp_webhook mock_services 9
     \<lparr>messages = [\<lparr>sender = ''+15551234567'', body = ''again''\<rparr>]\<rparr>
     (idle_store\<lparr>message_logs :=
        [\<lparr>log_id = None, contact_id = IdStr ''000000000000000000000001'',
          from_number = ''+15551234567'', direction = ''inbound'', text_of = ''hello'',
          timestamp = 5\<rparr>]\<rparr>)
   = (Inl DuplicateKeyError,
      idle_store\<lparr>message_logs :=
        [\<lparr>log_id = None, contact_id = IdStr ''000000000000000000000001'',
          from_number = ''+15551234567'', direction = ''inbound'', text_of = ''hello'',
          timestamp = 5\<rparr>]\<rparr>) \<and>
   flows idle_store = []"
  by code_simp

section \<open>The update of the contact\<close>

lemma update_one_no_match: "\<forall>x\<in>set xs. \<not> P x \<Longrightarrow> update_one P f xs = xs"
  by (induction xs) auto

text \<open>
  No contact stored under an ObjectId is ever written by \<open>execute_flow_node\<close>: the
  filter of its update carries the string \<open>contact.id\<close>.
\<close>

lemma execute_flow_node_object_ids:
  assumes "\<forall>c\<in>set (contacts db). \<exists>n. doc_id c = ObjectId n"
  shows "contacts (snd (execute_flow_node sv db contact nd fd)) = contacts db"
proof -
  from assms have "\<forall>c\<in>set (contacts db). \<not> doc_id c = IdStr (oid_str contact)" by auto
  then have "update_one (\<lambda>c. doc_id c = IdStr (oid_str contact))
        (\<lambda>c. c\<lparr>current_flow_node_id := next_node_id_of (edges fd) (n_id nd),
                 last_active := clock db\<rparr>)
        (contacts db) = contacts db"
    by (rule update_one_no_match)
  with execute_flow_node_effects [of sv db contact nd fd] show ?thesis by auto
qed

text \<open>
  Claim C4, on the contact that the webhook itself created (stored under the ObjectId
  that \<open>insert_one\<close> gave it). Executing the text node \<open>n1\<close>, whose edge leads to \<open>n2\<close>,
  with the mocked services at clock 5 returns normally, sends and logs the reply, and
  leaves the stored contact at the null position with \<open>last_active\<close> 0: the update
  filters on the string \<open>contact.id\<close> and matches no document. The same happens
  through the handler: an inbound message of that contact, with the active flow leading
  from its trigger node \<open>start\<close> to \<open>n2\<close>, is answered as processed and changes
  nothing of the store but the message log.
\<close>

theorem contact_update_misses_object_id:
  "ContactInDB alice = Inr alice_in_db \<and>
   next_node_id_of (edges two_step) (n_id node_n1) = Some ''n2'' \<and>
   clock (store two_step) = 5 \<and>
   execute_flow_node mock_services (store two_step) alice_in_db node_n1 two_step
     = (Inr (),
        (store two_step)
          \<lparr>message_logs :=
             [\<lparr>log_id = None, contact_id = IdStr ''000000000000000000000001'',
               from_number = ''+15551234567'', direction = ''outbound'', text_of = ''Hi!'',
               timestamp = 5\<rparr>],
           sent := [(''+15551234567'', ''Hi!'')]\<rparr>) \<and>
   contacts (store two_step) = [alice, bob] \<and>
   current_flow_node_id alice = None \<and> last_active alice = 0 \<and>
   next_node_id_of (edges triggered) (n_id node_start) = Some ''n2'' \<and>
   handle_whatsapp_webhook mock_services 9
     \<lparr>messages = [\<lparr>sender = ''+15551234567'', body = ''hello''\<rparr>]\<rparr> (store triggered)
     = (Inr MessageProcessed,
        (store triggered)
          \<lparr>message_logs :=
             [\<lparr>log_id = None, contact_id = IdStr ''000000000000000000000001'',
               from_number = ''+15551234567'', direction = ''inbound'', text_of = ''hello'',
               timestamp = 5\<rparr>]\<rparr>)"
  by code_simp

end
